theory Spec2Isabelle
  imports Complex_Main "HOL-Library.FSet" "HOL-Library.List_Lexorder" "HOL-Library.Char_ord"
begin

section \<open>Exceptions\<close>

text \<open>
  The exceptions the modelled code can raise: \<^verbatim>\<open>NameError\<close> for a global name that is not
  bound, and \<^verbatim>\<open>OverflowError\<close> for date arithmetic that leaves the range of its type. A
  function that can raise returns a sum, \<open>Inl\<close> the exception.
\<close>

datatype py_error = NameError string | OverflowError

section \<open>Time\<close>

text \<open>
  A \<^verbatim>\<open>datetime\<close> is an integer count of microseconds (the resolution of Python's
  \<^verbatim>\<open>datetime\<close>) since \<^verbatim>\<open>datetime.min\<close>, the first instant of year 1. The type ends at
  \<^verbatim>\<open>datetime.max\<close>, the last microsecond of year 9999, which is day 3652059 of the calendar.
  Every reading of \<^verbatim>\<open>datetime.utcnow()\<close> is an explicit argument of the function that reads
  the clock.
\<close>

type_synonym datetime = int

definition datetime_max :: int where
  "datetime_max = 3652059 * 86400000000 - 1"

text \<open>
  \<^verbatim>\<open>timedelta(hours=h)\<close>, in microseconds. A \<^verbatim>\<open>timedelta\<close> holds a whole number of days (the
  hours divided by 24, rounded down) and a remainder within the day; the constructor raises
  \<^verbatim>\<open>OverflowError\<close> when the number of days is beyond 999999999 in magnitude.
\<close>

definition timedelta_hours :: "int \<Rightarrow> py_error + int" where
  "timedelta_hours h =
     (if - 999999999 \<le> h div 24 \<and> h div 24 \<le> 999999999 then Inr (h * 3600000000)
      else Inl OverflowError)"

text \<open>
  \<^verbatim>\<open>datetime + timedelta\<close>: raises \<^verbatim>\<open>OverflowError\<close> when the sum is not a \<^verbatim>\<open>datetime\<close>.
\<close>

definition datetime_add :: "datetime \<Rightarrow> int \<Rightarrow> py_error + datetime" where
  "datetime_add t delta =
     (if 0 \<le> t + delta \<and> t + delta \<le> datetime_max then Inr (t + delta) else Inl OverflowError)"

section \<open>cache\_manager.py: CacheEntry\<close>

record 'd CacheEntry =
  data :: 'd
  timestamp :: datetime
  ttl_hours :: int
  access_count :: int
  last_accessed :: datetime
  size_bytes :: nat

text \<open>
  The constructor call \<^verbatim>\<open>CacheEntry(data=..., timestamp=..., ttl_hours=...)\<close> followed by
  \<^verbatim>\<open>__post_init__\<close>. The argument \<open>estimate\<close> is the size estimate of \<^verbatim>\<open>__post_init__\<close>:
  \<^verbatim>\<open>len(str(data).encode('utf-8'))\<close> for a str, dict or list and the default \<open>0\<close> for
  any other payload.
\<close>

definition new_entry :: "('d \<Rightarrow> nat) \<Rightarrow> 'd \<Rightarrow> datetime \<Rightarrow> int \<Rightarrow> 'd CacheEntry" where
  "new_entry estimate d now ttl =
     \<lparr>data = d, timestamp = now, ttl_hours = ttl, access_count = 0,
      last_accessed = now, size_bytes = estimate d\<rparr>"

text \<open>
  The property \<^verbatim>\<open>is_expired\<close>:
  \<^verbatim>\<open>datetime.utcnow() > self.timestamp + timedelta(hours=self.ttl_hours)\<close>. The clock is read
  first; then the \<^verbatim>\<open>timedelta\<close> is built and added, and either step can raise.
\<close>

definition is_expired :: "datetime \<Rightarrow> 'd CacheEntry \<Rightarrow> py_error + bool" where
  "is_expired now e =
     (case timedelta_hours (ttl_hours e) of
        Inl err \<Rightarrow> Inl err
      | Inr delta \<Rightarrow>
          (case datetime_add (timestamp e) delta of
             Inl err \<Rightarrow> Inl err
           | Inr expiry \<Rightarrow> Inr (now > expiry)))"

definition touch :: "datetime \<Rightarrow> 'd CacheEntry \<Rightarrow> 'd CacheEntry" where
  "touch now e = e\<lparr>access_count := access_count e + 1, last_accessed := now\<rparr>"

section \<open>OrderedDict\<close>

text \<open>
  An \<^verbatim>\<open>OrderedDict\<close> is an association list in iteration order, first item first.
\<close>

type_synonym ('k, 'v) ordered_dict = "('k \<times> 'v) list"

text \<open>\<^verbatim>\<open>d[k] = v\<close>: an existing key keeps its position, a new key goes to the end.\<close>

fun od_setitem :: "'k \<Rightarrow> 'v \<Rightarrow> ('k, 'v) ordered_dict \<Rightarrow> ('k, 'v) ordered_dict" where
  "od_setitem k v [] = [(k, v)]"
| "od_setitem k v ((k', v') # rest) =
     (if k' = k then (k, v) # rest else (k', v') # od_setitem k v rest)"

text \<open>\<^verbatim>\<open>d.pop(k)\<close> for a key that is present (every call site checks membership first).\<close>

definition od_pop :: "'k \<Rightarrow> ('k, 'v) ordered_dict \<Rightarrow> ('k, 'v) ordered_dict" where
  "od_pop k d = filter (\<lambda>(k', v'). k' \<noteq> k) d"

text \<open>\<^verbatim>\<open>d.move_to_end(k)\<close>; its only call site has checked that the key is present.\<close>

definition od_move_to_end :: "'k \<Rightarrow> ('k, 'v) ordered_dict \<Rightarrow> ('k, 'v) ordered_dict" where
  "od_move_to_end k d = (case map_of d k of None \<Rightarrow> d | Some v \<Rightarrow> od_pop k d @ [(k, v)])"

section \<open>cache\_manager.py: CacheManager\<close>

record CacheStats =
  hits :: nat
  misses :: nat
  evictions :: nat
  memory_cleanups :: nat
  duplicate_blocks :: nat

record 'd CacheManager =
  max_memory_bytes :: int
  cache :: "(string, 'd CacheEntry) ordered_dict"
  deduplication_hashes :: "string fset"
  stats :: CacheStats
  pain_point_cache :: "(string, 'd CacheEntry) ordered_dict"
  api_response_cache :: "(string, 'd CacheEntry) ordered_dict"
  processed_content_hashes :: "string fset"

definition init_cache_manager :: "int \<Rightarrow> 'd CacheManager" where
  "init_cache_manager max_memory_mb =
     \<lparr>max_memory_bytes = max_memory_mb * 1024 * 1024,
      cache = [],
      deduplication_hashes = {||},
      stats = \<lparr>hits = 0, misses = 0, evictions = 0, memory_cleanups = 0, duplicate_blocks = 0\<rparr>,
      pain_point_cache = [],
      api_response_cache = [],
      processed_content_hashes = {||}\<rparr>"

definition get_cache_store :: "string \<Rightarrow> 'd CacheManager \<Rightarrow> (string, 'd CacheEntry) ordered_dict" where
  "get_cache_store cache_type m =
     (if cache_type = ''pain_points'' then pain_point_cache m
      else if cache_type = ''api_response'' then api_response_cache m
      else cache m)"

text \<open>
  \<open>get_cache_store\<close> returns a reference to one of the three dictionaries; a mutation
  through that reference is written back to the field it aliases.
\<close>

definition put_cache_store ::
  "string \<Rightarrow> (string, 'd CacheEntry) ordered_dict \<Rightarrow> 'd CacheManager \<Rightarrow> 'd CacheManager" where
  "put_cache_store cache_type store m =
     (if cache_type = ''pain_points'' then m\<lparr>pain_point_cache := store\<rparr>
      else if cache_type = ''api_response'' then m\<lparr>api_response_cache := store\<rparr>
      else m\<lparr>cache := store\<rparr>)"

definition total_bytes :: "(string, 'd CacheEntry) ordered_dict \<Rightarrow> int" where
  "total_bytes store = sum_list (map (\<lambda>(k, e). int (size_bytes e)) store)"

text \<open>
  The \<^verbatim>\<open>while\<close> loop of \<^verbatim>\<open>_ensure_memory_capacity\<close>: while the new entry does not fit,
  pop the first item of the dictionary; stop when the dictionary is empty. The last
  argument is the \<^verbatim>\<open>evictions\<close> counter.
\<close>

fun evict_loop ::
  "int \<Rightarrow> int \<Rightarrow> int \<Rightarrow> (string, 'd CacheEntry) ordered_dict \<Rightarrow> nat
     \<Rightarrow> (string, 'd CacheEntry) ordered_dict \<times> nat" where
  "evict_loop budget required_bytes current_size [] ev = ([], ev)"
| "evict_loop budget required_bytes current_size ((lru_key, lru_entry) # rest) ev =
     (if current_size + required_bytes > budget
      then evict_loop budget required_bytes (current_size - int (size_bytes lru_entry)) rest (ev + 1)
      else ((lru_key, lru_entry) # rest, ev))"

definition ensure_memory_capacity :: "nat \<Rightarrow> string \<Rightarrow> 'd CacheManager \<Rightarrow> 'd CacheManager" where
  "ensure_memory_capacity required_bytes cache_type m =
     (let cache_store = get_cache_store cache_type m;
          current_size = total_bytes cache_store;
          (store', ev) = evict_loop (max_memory_bytes m div 3) (int required_bytes)
                           current_size cache_store (evictions (stats m))
      in put_cache_store cache_type store' (m\<lparr>stats := (stats m)\<lparr>evictions := ev\<rparr>\<rparr>))"

definition delete :: "string \<Rightarrow> string \<Rightarrow> 'd CacheManager \<Rightarrow> 'd CacheManager" where
  "delete key cache_type m =
     (let cache_store = get_cache_store cache_type m
      in if map_of cache_store key \<noteq> None
         then put_cache_store cache_type (od_pop key cache_store) m
         else m)"

text \<open>
  \<^verbatim>\<open>CacheManager.get\<close>. \<open>now\<close> is the clock reading of \<^verbatim>\<open>entry.is_expired\<close>,
  \<open>now_touch\<close> the later one of \<^verbatim>\<open>entry.touch()\<close>. The returned \<open>None\<close> is Python's
  \<^verbatim>\<open>None\<close>. When \<^verbatim>\<open>entry.is_expired\<close> raises, the exception leaves \<^verbatim>\<open>get\<close>; nothing has
  been changed by then, so the manager stays as it was before the call.
\<close>

definition get ::
  "datetime \<Rightarrow> datetime \<Rightarrow> string \<Rightarrow> string \<Rightarrow> 'd CacheManager
     \<Rightarrow> py_error + 'd option \<times> 'd CacheManager" where
  "get now now_touch key cache_type m =
     (let cache_store = get_cache_store cache_type m
      in case map_of cache_store key of
           None \<Rightarrow> Inr (None, m\<lparr>stats := (stats m)\<lparr>misses := misses (stats m) + 1\<rparr>\<rparr>)
         | Some entry \<Rightarrow>
             (case is_expired now entry of
                Inl err \<Rightarrow> Inl err
              | Inr expired \<Rightarrow>
                  if expired
                  then (let m1 = delete key cache_type m
                        in Inr (None, m1\<lparr>stats := (stats m1)\<lparr>misses := misses (stats m1) + 1\<rparr>\<rparr>))
                  else (let entry' = touch now_touch entry;
                            store' = od_move_to_end key (od_setitem key entry' cache_store);
                            m1 = put_cache_store cache_type store' m
                        in Inr (Some (data entry'),
                                m1\<lparr>stats := (stats m1)\<lparr>hits := hits (stats m1) + 1\<rparr>\<rparr>))))"

text \<open>\<^verbatim>\<open>CacheManager.set\<close>; \<open>now\<close> is the clock reading that stamps the new entry.\<close>

definition set_entry ::
  "('d \<Rightarrow> nat) \<Rightarrow> datetime \<Rightarrow> string \<Rightarrow> 'd \<Rightarrow> int \<Rightarrow> string \<Rightarrow> 'd CacheManager \<Rightarrow> 'd CacheManager" where
  "set_entry estimate now key d ttl cache_type m =
     (let entry = new_entry estimate d now ttl;
          m1 = ensure_memory_capacity (size_bytes entry) cache_type m
      in put_cache_store cache_type (od_setitem key entry (get_cache_store cache_type m1)) m1)"

text \<open>A sequence of \<^verbatim>\<open>set\<close> calls on one partition: the states after each call, in order.\<close>

fun set_trace ::
  "('d \<Rightarrow> nat) \<Rightarrow> string \<Rightarrow> (datetime \<times> string \<times> 'd \<times> int) list \<Rightarrow> 'd CacheManager
     \<Rightarrow> 'd CacheManager list" where
  "set_trace estimate cache_type [] m = []"
| "set_trace estimate cache_type ((now, key, d, ttl) # ops) m =
     (let m1 = set_entry estimate now key d ttl cache_type m
      in m1 # set_trace estimate cache_type ops m1)"

section \<open>cache\_manager.py: content deduplication\<close>

text \<open>
  \<open>md5_hexdigest s\<close> stands for \<^verbatim>\<open>hashlib.md5(s.encode()).hexdigest()\<close>; the library function
  is an argument of every definition that hashes. \<open>content_string\<close> is the f-string that
  \<^verbatim>\<open>generate_content_hash\<close> hashes.
\<close>

definition content_string :: "string \<Rightarrow> string \<Rightarrow> string \<Rightarrow> string" where
  "content_string title content source_url = take 100 title @ take 200 content @ source_url"

definition generate_content_hash ::
  "(string \<Rightarrow> string) \<Rightarrow> string \<Rightarrow> string \<Rightarrow> string \<Rightarrow> string" where
  "generate_content_hash md5_hexdigest title content source_url =
     md5_hexdigest (content_string title content source_url)"

text \<open>
  \<^verbatim>\<open>is_duplicate_content\<close>. \<^verbatim>\<open>processed_content_hashes\<close> is a Python \<^verbatim>\<open>set\<close>, which has no
  insertion order: \<open>list_of s\<close> stands for \<^verbatim>\<open>list(s)\<close>, the order in which the interpreter
  iterates over the set. \<^verbatim>\<open>hash_list[-7500:]\<close> is the last 7500 items of that list (the
  whole list when it is shorter).
\<close>

definition is_duplicate_content ::
  "(string \<Rightarrow> string) \<Rightarrow> (string fset \<Rightarrow> string list) \<Rightarrow> string \<Rightarrow> string \<Rightarrow> string
     \<Rightarrow> 'd CacheManager \<Rightarrow> bool \<times> 'd CacheManager" where
  "is_duplicate_content md5_hexdigest list_of title content source_url m =
     (let content_hash = generate_content_hash md5_hexdigest title content source_url
      in if content_hash |\<in>| processed_content_hashes m
         then (True, m\<lparr>stats := (stats m)\<lparr>duplicate_blocks := duplicate_blocks (stats m) + 1\<rparr>\<rparr>)
         else (let seen = finsert content_hash (processed_content_hashes m)
               in if fcard seen > 10000
                  then (let hash_list = list_of seen
                        in (False, m\<lparr>processed_content_hashes :=
                                        fset_of_list (drop (length hash_list - 7500) hash_list)\<rparr>))
                  else (False, m\<lparr>processed_content_hashes := seen\<rparr>)))"

text \<open>Whether a call reaches the pruning branch.\<close>

definition prune_triggered ::
  "(string \<Rightarrow> string) \<Rightarrow> string \<times> string \<times> string \<Rightarrow> 'd CacheManager \<Rightarrow> bool" where
  "prune_triggered md5_hexdigest inp m =
     (case inp of (title, content, source_url) \<Rightarrow>
        generate_content_hash md5_hexdigest title content source_url |\<notin>| processed_content_hashes m \<and>
        fcard (finsert (generate_content_hash md5_hexdigest title content source_url)
                 (processed_content_hashes m)) > 10000)"

text \<open>
  A sequence of duplicate checks: the results in order, and whether no call of the
  sequence reaches the pruning branch.
\<close>

fun duplicate_checks ::
  "(string \<Rightarrow> string) \<Rightarrow> (string fset \<Rightarrow> string list) \<Rightarrow> (string \<times> string \<times> string) list
     \<Rightarrow> 'd CacheManager \<Rightarrow> bool list" where
  "duplicate_checks md5_hexdigest list_of [] m = []"
| "duplicate_checks md5_hexdigest list_of ((title, content, source_url) # rest) m =
     (let (r, m1) = is_duplicate_content md5_hexdigest list_of title content source_url m
      in r # duplicate_checks md5_hexdigest list_of rest m1)"

fun no_pruning ::
  "(string \<Rightarrow> string) \<Rightarrow> (string fset \<Rightarrow> string list) \<Rightarrow> (string \<times> string \<times> string) list
     \<Rightarrow> 'd CacheManager \<Rightarrow> bool" where
  "no_pruning md5_hexdigest list_of [] m = True"
| "no_pruning md5_hexdigest list_of ((title, content, source_url) # rest) m =
     (\<not> prune_triggered md5_hexdigest (title, content, source_url) m \<and>
      no_pruning md5_hexdigest list_of rest
        (snd (is_duplicate_content md5_hexdigest list_of title content source_url m)))"

section \<open>base\_collector.py\<close>

record CollectorConfig =
  max_concurrent :: int
  timeout_seconds :: int
  retry_attempts :: int
  cache_ttl_hours :: int
  max_content_length :: int
  min_quality_score :: real
  rate_limit_delay :: real
  vercel_memory_limit :: bool

definition default_config :: CollectorConfig where
  "default_config =
     \<lparr>max_concurrent = 5, timeout_seconds = 30, retry_attempts = 3, cache_ttl_hours = 6,
      max_content_length = 5000, min_quality_score = 3 / 10, rate_limit_delay = 1,
      vercel_memory_limit = True\<rparr>"

record PainPointData =
  title :: string
  content :: string
  source :: string
  source_url :: string
  sentiment_score :: real
  trend_score :: real
  keywords_p :: "string list"
  category :: string
  confidence :: real
  timestamp_p :: datetime

text \<open>The property \<^verbatim>\<open>PainPointData.content_hash\<close>: the f-string it hashes, and the hash.\<close>

definition content_str :: "PainPointData \<Rightarrow> string" where
  "content_str p = take 100 (title p) @ source p @ source_url p"

definition content_hash :: "(string \<Rightarrow> string) \<Rightarrow> PainPointData \<Rightarrow> string" where
  "content_hash md5_hexdigest p = md5_hexdigest (content_str p)"

text \<open>
  The property \<^verbatim>\<open>PainPointData.quality_score\<close>. Python computes it in floating point: every
  arithmetic operation returns the rounding of the exact result, and a literal denotes the
  rounding of its decimal value. The rounding \<open>rnd\<close> is an argument; \<open>rnd = (\<lambda>x. x)\<close> is
  exact real arithmetic. \<^verbatim>\<open>min\<close> selects one of its arguments and does not round.
\<close>

definition quality_score :: "(real \<Rightarrow> real) \<Rightarrow> PainPointData \<Rightarrow> real" where
  "quality_score rnd p =
     (let title_score = min (rnd (real (length (title p)) / 50)) 1;
          content_score = min (rnd (real (length (content p)) / 200)) 1;
          keyword_score = min (rnd (real (length (keywords_p p)) / 5)) 1
      in rnd (rnd (rnd (rnd (title_score * rnd (3 / 10)) + rnd (content_score * rnd (4 / 10)))
                   + rnd (keyword_score * rnd (2 / 10)))
              + rnd (confidence p * rnd (1 / 10))))"

record CollectorStats =
  total_processed :: nat
  duplicates_filtered :: nat
  quality_filtered :: nat
  api_calls :: nat
  cache_hits :: nat
  errors :: "string list"

text \<open>
  What a collector does to the outside world, in order: an awaited call of
  \<^verbatim>\<open>_collect_raw_data(query, limit)\<close> and an awaited \<^verbatim>\<open>asyncio.sleep(delay)\<close>.
\<close>

datatype event = Fetch string int | Sleep real

text \<open>
  The state of a \<^verbatim>\<open>BaseCollector\<close>: its fields \<^verbatim>\<open>config\<close>, \<^verbatim>\<open>_seen_hashes\<close> and \<^verbatim>\<open>_stats\<close>,
  and the log of the events it has caused so far.
\<close>

record Collector =
  config :: CollectorConfig
  seen_hashes :: "string fset"
  collector_stats :: CollectorStats
  events :: "event list"

definition init_collector :: "CollectorConfig \<Rightarrow> Collector" where
  "init_collector cfg =
     \<lparr>config = cfg, seen_hashes = {||},
      collector_stats = \<lparr>total_processed = 0, duplicates_filtered = 0, quality_filtered = 0,
                         api_calls = 0, cache_hits = 0, errors = []\<rparr>,
      events = []\<rparr>"

text \<open>
  \<^verbatim>\<open>_should_include\<close>. \<open>is_pain_point_content\<close> is the keyword heuristic
  \<^verbatim>\<open>_is_pain_point_content\<close>, a function of the text alone.
\<close>

definition should_include ::
  "(real \<Rightarrow> real) \<Rightarrow> (string \<Rightarrow> string) \<Rightarrow> (string \<Rightarrow> bool) \<Rightarrow> PainPointData \<Rightarrow> Collector
     \<Rightarrow> bool \<times> Collector" where
  "should_include rnd md5_hexdigest is_pain_point_content pain_point c =
     (let st = collector_stats c
      in if content_hash md5_hexdigest pain_point |\<in>| seen_hashes c
         then (False, c\<lparr>collector_stats := st\<lparr>duplicates_filtered := duplicates_filtered st + 1\<rparr>\<rparr>)
         else if quality_score rnd pain_point < min_quality_score (config c)
         then (False, c\<lparr>collector_stats := st\<lparr>quality_filtered := quality_filtered st + 1\<rparr>\<rparr>)
         else if \<not> is_pain_point_content (title pain_point @ '' '' @ content pain_point)
         then (False, c\<lparr>collector_stats := st\<lparr>quality_filtered := quality_filtered st + 1\<rparr>\<rparr>)
         else (True, c\<lparr>seen_hashes := finsert (content_hash md5_hexdigest pain_point) (seen_hashes c)\<rparr>))"



definition add_error :: "string \<Rightarrow> Collector \<Rightarrow> Collector" where
  "add_error msg c = c\<lparr>collector_stats := (collector_stats c)\<lparr>errors := errors (collector_stats c) @ [msg]\<rparr>\<rparr>"

definition add_event :: "event \<Rightarrow> Collector \<Rightarrow> Collector" where
  "add_event ev c = c\<lparr>events := events c @ [ev]\<rparr>"

definition fetch_count :: "Collector \<Rightarrow> nat" where
  "fetch_count c = length (filter (\<lambda>ev. case ev of Fetch q l \<Rightarrow> True | Sleep d \<Rightarrow> False) (events c))"



section \<open>cache\_manager.py: cleanup\<close>

text \<open>
  The list comprehension \<^verbatim>\<open>[key for key, entry in cache_store.items() if entry.is_expired]\<close>:
  the expired keys in the order of the dictionary, or the exception of the first entry
  whose \<^verbatim>\<open>is_expired\<close> raises.
\<close>

fun expired_keys ::
  "datetime \<Rightarrow> (string, 'd CacheEntry) ordered_dict \<Rightarrow> py_error + string list" where
  "expired_keys now [] = Inr []"
| "expired_keys now ((key, entry) # rest) =
     (case is_expired now entry of
        Inl err \<Rightarrow> Inl err
      | Inr expired \<Rightarrow>
          (case expired_keys now rest of
             Inl err \<Rightarrow> Inl err
           | Inr keys \<Rightarrow> Inr (if expired then key # keys else keys)))"

text \<open>
  One round of the loop of \<^verbatim>\<open>cleanup_expired\<close> over the three dictionaries: the expired
  keys are collected, then popped. The result is the number of popped keys and the manager.
\<close>

definition cleanup_store :: "datetime \<Rightarrow> string \<Rightarrow> 'd CacheManager \<Rightarrow> py_error + nat \<times> 'd CacheManager" where
  "cleanup_store now cache_type m =
     (case expired_keys now (get_cache_store cache_type m) of
        Inl err \<Rightarrow> Inl err
      | Inr keys \<Rightarrow>
          Inr (length keys,
               put_cache_store cache_type (fold od_pop keys (get_cache_store cache_type m)) m))"

text \<open>
  \<^verbatim>\<open>cleanup_expired\<close>: the dictionaries are swept in the order general, pain points, API
  responses; the counter \<^verbatim>\<open>memory_cleanups\<close> is incremented when at least one entry was
  removed. The result is the exception raised, if any, and the manager as the call leaves
  it: a dictionary swept before the exception stays swept.
\<close>

definition cleanup_expired :: "datetime \<Rightarrow> 'd CacheManager \<Rightarrow> py_error option \<times> 'd CacheManager" where
  "cleanup_expired now m =
     (case cleanup_store now ''general'' m of
        Inl err \<Rightarrow> (Some err, m)
      | Inr (n1, m1) \<Rightarrow>
          (case cleanup_store now ''pain_points'' m1 of
             Inl err \<Rightarrow> (Some err, m1)
           | Inr (n2, m2) \<Rightarrow>
               (case cleanup_store now ''api_response'' m2 of
                  Inl err \<Rightarrow> (Some err, m2)
                | Inr (n3, m3) \<Rightarrow>
                    (None,
                     if n1 + n2 + n3 > 0
                     then m3\<lparr>stats := (stats m3)\<lparr>memory_cleanups := memory_cleanups (stats m3) + 1\<rparr>\<rparr>
                     else m3))))"

section \<open>data\_collector.py\<close>

record CollectionResult =
  source_cr :: string
  collected_count :: nat
  total_processed_cr :: nat
  duplicates_filtered_cr :: nat
  errors_cr :: "string list"
  execution_time :: real
  cache_hits_cr :: nat

text \<open>
  The properties \<^verbatim>\<open>success_rate\<close> and \<^verbatim>\<open>efficiency_score\<close>, in floating point with the
  rounding \<open>rnd\<close> as for \<open>quality_score\<close>.
\<close>

definition success_rate :: "(real \<Rightarrow> real) \<Rightarrow> CollectionResult \<Rightarrow> real" where
  "success_rate rnd r =
     (if total_processed_cr r = 0 then 0
      else rnd (rnd (real (collected_count r) / real (total_processed_cr r)) * 100))"

definition efficiency_score :: "(real \<Rightarrow> real) \<Rightarrow> CollectionResult \<Rightarrow> real" where
  "efficiency_score rnd r =
     (let base_score = rnd (success_rate rnd r / 100);
          cache_bonus = min (rnd (real (cache_hits_cr r) / real (max (total_processed_cr r) 1)))
                            (rnd (1 / 2))
      in min (rnd (base_score + cache_bonus)) 1)"

text \<open>
  The formula of the specification, in its words:
  \<^verbatim>\<open>min(1, successRate/100 + min(cacheHits/max(processed,1), 0.5))\<close>.
\<close>

definition efficiency_formula :: "(real \<Rightarrow> real) \<Rightarrow> real \<Rightarrow> nat \<Rightarrow> nat \<Rightarrow> real" where
  "efficiency_formula rnd successRate cacheHits processed =
     min 1 (rnd (rnd (successRate / 100)
                 + min (rnd (real cacheHits / real (max processed 1))) (rnd (1 / 2))))"

record ServiceStats =
  total_sessions :: nat
  successful_sessions :: nat
  total_collected :: nat
  average_quality_score :: real

record 'd DataCollectorService =
  cache_manager :: "'d CacheManager"
  collection_stats :: ServiceStats

text \<open>
  The names bound at module level in \<^verbatim>\<open>data_collector.py\<close>, by its imports (lines 6 to 20)
  and its own definitions. A global name that is neither bound there nor a builtin raises
  \<^verbatim>\<open>NameError\<close> when it is evaluated.
\<close>

definition module_names :: "string list" where
  "module_names =
     [''asyncio'', ''aiohttp'', ''datetime'', ''timedelta'', ''List'', ''Dict'', ''Any'',
      ''Optional'', ''Set'', ''structlog'', ''hashlib'', ''json'', ''dataclass'', ''settings'',
      ''DatabaseService'', ''RedditCollector'', ''NaverCollector'', ''AlternativeCollector'',
      ''CacheManager'', ''logger'', ''CollectionResult'', ''DataCollectorService'']"

definition global_name :: "string \<Rightarrow> py_error + unit" where
  "global_name name = (if name \<in> set module_names then Inr () else Inl (NameError name))"

text \<open>
  What one collector gave in a run: the records returned by the awaited
  \<^verbatim>\<open>collector.collect(base_queries, limit_per_source)\<close> with the statistics of
  \<^verbatim>\<open>collector.get_stats()\<close> after it, or an exception that escaped with its message.
\<close>

datatype source_run = Collected "PainPointData list" CollectorStats | CollectorFailed string

text \<open>
  The inner \<^verbatim>\<open>for pain_point in pain_points\<close> loop; the last argument is \<^verbatim>\<open>stored_count\<close>.
  \<open>create_ok p\<close> tells whether \<^verbatim>\<open>DatabaseService.create_pain_point(p.to_dict())\<close> returns;
  when it raises, the exception is logged and the loop goes on.
\<close>

fun store_loop ::
  "(string \<Rightarrow> string) \<Rightarrow> (string fset \<Rightarrow> string list) \<Rightarrow> (PainPointData \<Rightarrow> bool)
     \<Rightarrow> PainPointData list \<Rightarrow> 'd CacheManager \<Rightarrow> nat \<Rightarrow> nat \<times> 'd CacheManager" where
  "store_loop md5_hexdigest list_of create_ok [] m stored_count = (stored_count, m)"
| "store_loop md5_hexdigest list_of create_ok (pain_point # rest) m stored_count =
     (let (dup, m1) = is_duplicate_content md5_hexdigest list_of
                        (title pain_point) (content pain_point) (source_url pain_point) m
      in if \<not> dup \<and> create_ok pain_point
         then store_loop md5_hexdigest list_of create_ok rest m1 (stored_count + 1)
         else store_loop md5_hexdigest list_of create_ok rest m1 stored_count)"

text \<open>
  The loop over \<^verbatim>\<open>self.collectors.items()\<close>. Each run comes with the reading of
  \<^verbatim>\<open>time.time()\<close> taken for its result. The accumulator holds \<^verbatim>\<open>collection_results\<close>,
  \<^verbatim>\<open>all_pain_points\<close>, \<^verbatim>\<open>total_errors\<close> and the cache manager.
\<close>

fun sources_loop ::
  "(string \<Rightarrow> string) \<Rightarrow> (string fset \<Rightarrow> string list) \<Rightarrow> (PainPointData \<Rightarrow> bool) \<Rightarrow> real
     \<Rightarrow> (string \<times> source_run \<times> real) list
     \<Rightarrow> CollectionResult list \<times> PainPointData list \<times> string list \<times> 'd CacheManager
     \<Rightarrow> CollectionResult list \<times> PainPointData list \<times> string list \<times> 'd CacheManager" where
  "sources_loop md5_hexdigest list_of create_ok start_time [] acc = acc"
| "sources_loop md5_hexdigest list_of create_ok start_time
     ((collector_name, CollectorFailed msg, t) # rest)
     (collection_results, all_pain_points, total_errors, m) =
     sources_loop md5_hexdigest list_of create_ok start_time rest
       (collection_results, all_pain_points, total_errors @ [collector_name @ '': '' @ msg], m)"
| "sources_loop md5_hexdigest list_of create_ok start_time
     ((collector_name, Collected pain_points st, t) # rest)
     (collection_results, all_pain_points, total_errors, m) =
     (let (stored_count, m1) = store_loop md5_hexdigest list_of create_ok pain_points m 0;
          result = \<lparr>source_cr = collector_name,
                    collected_count = stored_count,
                    total_processed_cr = length pain_points,
                    duplicates_filtered_cr = length pain_points - stored_count,
                    errors_cr = errors st,
                    execution_time = t - start_time,
                    cache_hits_cr = cache_hits st\<rparr>
      in sources_loop md5_hexdigest list_of create_ok start_time rest
           (collection_results @ [result], all_pain_points @ pain_points, total_errors, m1))"

text \<open>\<^verbatim>\<open>sum(p.quality_score for p in all_pain_points)\<close>, added from the left in floating point.\<close>

definition quality_sum :: "(real \<Rightarrow> real) \<Rightarrow> PainPointData list \<Rightarrow> real" where
  "quality_sum rnd ps = foldl (\<lambda>acc p. rnd (acc + quality_score rnd p)) 0 ps"

text \<open>
  The body of \<^verbatim>\<open>collect_all_sources\<close> after its first statement (lines 69 to 171), given
  the reading \<open>start_time\<close> of that statement, the clock \<open>now\<close> of the cleanup and the
  reading \<open>end_time\<close> of \<^verbatim>\<open>time.time()\<close> that follows the cleanup (line 143, or line 170
  when the cleanup raises). \<open>str_of e\<close> stands for \<^verbatim>\<open>str(e)\<close>. An exception of the cleanup is
  caught by the outer \<^verbatim>\<open>except\<close>, which returns a result of zero counts with the message of
  the exception; what the call has changed by then stays changed.
\<close>

definition collect_all_sources_body ::
  "(real \<Rightarrow> real) \<Rightarrow> (string \<Rightarrow> string) \<Rightarrow> (string fset \<Rightarrow> string list) \<Rightarrow> (PainPointData \<Rightarrow> bool)
     \<Rightarrow> (py_error \<Rightarrow> string) \<Rightarrow> (string \<times> source_run \<times> real) list \<Rightarrow> real \<Rightarrow> real \<Rightarrow> datetime
     \<Rightarrow> 'd DataCollectorService \<Rightarrow> CollectionResult \<times> 'd DataCollectorService" where
  "collect_all_sources_body rnd md5_hexdigest list_of create_ok str_of runs start_time end_time now svc =
     (let cs0 = (collection_stats svc)\<lparr>total_sessions := total_sessions (collection_stats svc) + 1\<rparr>;
          (collection_results, all_pain_points, total_errors, m1) =
             sources_loop md5_hexdigest list_of create_ok start_time runs
               ([], [], [], cache_manager svc);
          total_collected_now = sum_list (map collected_count collection_results);
          total_processed_now = sum_list (map total_processed_cr collection_results);
          cs1 = (if total_collected_now > 0
                 then (let avg_quality = rnd (quality_sum rnd all_pain_points
                                               / real (length all_pain_points))
                       in cs0\<lparr>successful_sessions := successful_sessions cs0 + 1,
                              total_collected := total_collected cs0 + total_collected_now,
                              average_quality_score :=
                                rnd (rnd (average_quality_score cs0 + avg_quality) / 2)\<rparr>)
                 else cs0);
          (raised, m2) = cleanup_expired now m1
      in case raised of
           Some e \<Rightarrow>
             (\<lparr>source_cr = ''all_sources'',
               collected_count = 0,
               total_processed_cr = 0,
               duplicates_filtered_cr = 0,
               errors_cr = [str_of e],
               execution_time = end_time - start_time,
               cache_hits_cr = 0\<rparr>,
              svc\<lparr>cache_manager := m2, collection_stats := cs1\<rparr>)
         | None \<Rightarrow>
             (\<lparr>source_cr = ''all_sources'',
               collected_count = total_collected_now,
               total_processed_cr = total_processed_now,
               duplicates_filtered_cr = sum_list (map duplicates_filtered_cr collection_results),
               errors_cr = total_errors,
               execution_time = end_time - start_time,
               cache_hits_cr = sum_list (map cache_hits_cr collection_results)\<rparr>,
              svc\<lparr>cache_manager := m2, collection_stats := cs1\<rparr>))"

text \<open>
  \<^verbatim>\<open>collect_all_sources\<close>. Its first statement, \<^verbatim>\<open>start_time = time.time()\<close> on line 68,
  stands before the \<^verbatim>\<open>try\<close>: it evaluates the global name \<^verbatim>\<open>time\<close>, and an exception
  there leaves the function.
\<close>

definition collect_all_sources ::
  "(real \<Rightarrow> real) \<Rightarrow> (string \<Rightarrow> string) \<Rightarrow> (string fset \<Rightarrow> string list) \<Rightarrow> (PainPointData \<Rightarrow> bool)
     \<Rightarrow> (py_error \<Rightarrow> string) \<Rightarrow> (string \<times> source_run \<times> real) list \<Rightarrow> real \<Rightarrow> real \<Rightarrow> datetime
     \<Rightarrow> 'd DataCollectorService \<Rightarrow> py_error + CollectionResult \<times> 'd DataCollectorService" where
  "collect_all_sources rnd md5_hexdigest list_of create_ok str_of runs start_time end_time now svc =
     (case global_name ''time'' of
        Inl e \<Rightarrow> Inl e
      | Inr u \<Rightarrow> Inr (collect_all_sources_body rnd md5_hexdigest list_of create_ok str_of runs
                        start_time end_time now svc))"

section \<open>Auxiliary definitions of the proofs\<close>


text \<open>The entries of a dictionary stand in the order of their \<open>last_accessed\<close>, oldest first.\<close>

definition recency_sorted :: "(string, 'd CacheEntry) ordered_dict \<Rightarrow> bool" where
  "recency_sorted store = sorted (map (\<lambda>(k, e). last_accessed e) store)"

text \<open>A seen-set of 10000 hashes, each of them the string \<open>h\<close> followed by some letters.\<close>

definition older_hashes :: "string \<Rightarrow> string fset" where
  "older_hashes h = (\<lambda>n. h @ replicate (Suc n) CHR ''a'') |`| fset_of_list [0..<10000]"

text \<open>
  The record of the fourth example scenario: a title of 60 characters, a body of 300
  characters, four keywords and confidence 0.3.
\<close>

definition sample_point :: PainPointData where
  "sample_point =
     \<lparr>title = replicate 60 CHR ''t'', content = replicate 300 CHR ''c'',
      source = ''reddit-main'', source_url = ''http://r/1'', sentiment_score = 0,
      trend_score = 1 / 2, keywords_p = [''app'', ''crash'', ''login'', ''slow''],
      category = ''technology'', confidence = 3 / 10, timestamp_p = 0\<rparr>"

section \<open>Properties of the cache\<close>

lemma get_put_cache_store [simp]:
  "get_cache_store cache_type (put_cache_store cache_type store m) = store"
  by (simp add: get_cache_store_def put_cache_store_def)

lemma get_cache_store_stats [simp]:
  "get_cache_store cache_type (m\<lparr>stats := s\<rparr>) = get_cache_store cache_type m"
  by (simp add: get_cache_store_def)

lemma max_memory_put_cache_store [simp]:
  "max_memory_bytes (put_cache_store cache_type store m) = max_memory_bytes m"
  by (simp add: put_cache_store_def)

subsection \<open>Memory bound of \<open>set\<close>\<close>

lemma total_bytes_nonneg: "0 \<le> total_bytes store"
  by (induction store) (auto simp: total_bytes_def)

lemma total_bytes_Cons: "total_bytes ((k, e) # rest) = int (size_bytes e) + total_bytes rest"
  by (simp add: total_bytes_def)

lemma evict_loop_fits:
  "evict_loop budget req (total_bytes store) store ev = (store', ev') \<Longrightarrow>
     store' = [] \<or> total_bytes store' + req \<le> budget"
proof (induction store arbitrary: ev)
  case Nil
  then show ?case by simp
next
  case (Cons p rest)
  obtain k e where p: "p = (k, e)" by (cases p)
  show ?case
  proof (cases "total_bytes (p # rest) + req > budget")
    case True
    with Cons.prems p have "evict_loop budget req (total_bytes rest) rest (ev + 1) = (store', ev')"
      by (simp add: total_bytes_Cons)
    then show ?thesis by (rule Cons.IH)
  next
    case False
    with Cons.prems p show ?thesis by auto
  qed
qed

lemma evict_loop_oversized:
  "budget < req \<Longrightarrow> fst (evict_loop budget req (total_bytes store) store ev) = []"
proof (induction store arbitrary: ev)
  case Nil
  then show ?case by simp
next
  case (Cons p rest)
  obtain k e where p: "p = (k, e)" by (cases p)
  have "0 \<le> total_bytes (p # rest)" by (rule total_bytes_nonneg)
  with Cons.prems have "total_bytes (p # rest) + req > budget" by linarith
  with Cons p show ?case by (simp add: total_bytes_Cons)
qed

lemma total_bytes_od_setitem:
  "total_bytes (od_setitem k e store) \<le> total_bytes store + int (size_bytes e)"
  by (induction store) (auto simp: total_bytes_def)

lemma store_after_set:
  "get_cache_store cache_type (set_entry estimate now key d ttl cache_type m) =
     od_setitem key (new_entry estimate d now ttl)
       (fst (evict_loop (max_memory_bytes m div 3) (int (estimate d))
              (total_bytes (get_cache_store cache_type m)) (get_cache_store cache_type m)
              (evictions (stats m))))"
  by (simp add: set_entry_def ensure_memory_capacity_def Let_def new_entry_def split: prod.splits)

lemma max_memory_set_entry:
  "max_memory_bytes (set_entry estimate now key d ttl cache_type m) = max_memory_bytes m"
  by (simp add: set_entry_def ensure_memory_capacity_def Let_def split: prod.splits)

lemma set_entry_fits:
  assumes "int (estimate d) \<le> max_memory_bytes m div 3"
  shows "total_bytes (get_cache_store cache_type (set_entry estimate now key d ttl cache_type m))
           \<le> max_memory_bytes m div 3"
proof -
  let ?store = "get_cache_store cache_type m"
  let ?e = "new_entry estimate d now ttl"
  obtain store' ev' where ev:
    "evict_loop (max_memory_bytes m div 3) (int (estimate d)) (total_bytes ?store) ?store
       (evictions (stats m)) = (store', ev')"
    by (cases "evict_loop (max_memory_bytes m div 3) (int (estimate d)) (total_bytes ?store) ?store
       (evictions (stats m))")
  have sz: "size_bytes ?e = estimate d" by (simp add: new_entry_def)
  from evict_loop_fits [OF ev]
  have "total_bytes store' + int (estimate d) \<le> max_memory_bytes m div 3"
    using assms by (auto simp: total_bytes_def)
  moreover have "total_bytes (od_setitem key ?e store') \<le> total_bytes store' + int (estimate d)"
    using total_bytes_od_setitem [of key ?e store'] sz by simp
  ultimately show ?thesis by (simp add: store_after_set ev)
qed

lemma set_entry_oversized:
  assumes "max_memory_bytes m div 3 < int (estimate d)"
  shows "get_cache_store cache_type (set_entry estimate now key d ttl cache_type m)
           = [(key, new_entry estimate d now ttl)]"
  by (simp add: store_after_set evict_loop_oversized [OF assms])

lemma max_memory_set_trace:
  "m' \<in> set (set_trace estimate cache_type ops m) \<Longrightarrow> max_memory_bytes m' = max_memory_bytes m"
  by (induction ops arbitrary: m) (auto simp: Let_def max_memory_set_entry)

text \<open>
  Claim C1. Take any sequence of \<^verbatim>\<open>set\<close> calls on one partition, started in any state of
  the manager. Immediately after the \<open>i\<close>-th call, which stores a payload of estimated size
  \<open>estimate d\<close>: when that size is at most the partition budget
  \<open>max_memory_bytes div 3\<close>, the sizes of the entries of the partition sum to at most the
  budget; when that size is above the budget, every other entry has been evicted and the
  partition holds the new entry alone.
\<close>

theorem set_memory_bound:
  assumes "i < length ops" and "ops ! i = (now, key, d, ttl)"
  shows "let m' = set_trace estimate cache_type ops m ! i;
             budget = max_memory_bytes m div 3
         in (int (estimate d) \<le> budget \<longrightarrow> total_bytes (get_cache_store cache_type m') \<le> budget) \<and>
            (budget < int (estimate d) \<longrightarrow>
               get_cache_store cache_type m' = [(key, new_entry estimate d now ttl)])"
  using assms
proof (induction ops arbitrary: m i)
  case Nil
  then show ?case by simp
next
  case (Cons op ops)
  obtain now0 key0 d0 ttl0 where op: "op = (now0, key0, d0, ttl0)" by (cases op)
  show ?case
  proof (cases i)
    case 0
    with Cons.prems op show ?thesis
      by (auto simp: Let_def set_entry_fits set_entry_oversized)
  next
    case (Suc j)
    with Cons.prems have "j < length ops" "ops ! j = (now, key, d, ttl)" by auto
    from Cons.IH [OF this, of "set_entry estimate now0 key0 d0 ttl0 cache_type m"]
    show ?thesis using Suc op by (simp add: Let_def max_memory_set_entry)
  qed
qed


theorem set_memory_bound_witness:
  "(2::nat) < length [(1, ''A'', 150000::nat, 6), (2, ''B'', 150000, 6), (3, ''C'', 150000, 6)] \<and>
   [(1, ''A'', 150000::nat, 6), (2, ''B'', 150000, 6), (3, ''C'', 150000, 6)] ! 2 = (3, ''C'', 150000, 6) \<and>
   int 150000 \<le> max_memory_bytes (init_cache_manager 1 :: nat CacheManager) div 3 \<and>
   total_bytes (get_cache_store ''general''
      (set_trace (\<lambda>n. n) ''general''
         [(1, ''A'', 150000::nat, 6), (2, ''B'', 150000, 6), (3, ''C'', 150000, 6)]
         (init_cache_manager 1) ! 2)) \<le> 349525"
  using set_memory_bound [of 2 "[(1, ''A'', 150000::nat, 6), (2, ''B'', 150000, 6), (3, ''C'', 150000, 6)]"
      3 "''C''" 150000 6 "\<lambda>n. n" "''general''" "init_cache_manager 1"]
  by (simp add: init_cache_manager_def Let_def)

subsection \<open>Expiry on read\<close>

lemma map_of_od_pop [simp]: "map_of (od_pop k d) k = None"
  by (induction d) (auto simp: od_pop_def)

lemma stats_put_cache_store [simp]: "stats (put_cache_store cache_type store m) = stats m"
  by (simp add: put_cache_store_def)

lemma is_expired_in_range:
  assumes "- 999999999 \<le> ttl_hours e div 24" and "ttl_hours e div 24 \<le> 999999999"
      and "0 \<le> timestamp e + ttl_hours e * 3600000000"
      and "timestamp e + ttl_hours e * 3600000000 \<le> datetime_max"
  shows "is_expired now e = Inr (now > timestamp e + ttl_hours e * 3600000000)"
  using assms by (simp add: is_expired_def timedelta_hours_def datetime_add_def)

text \<open>
  Claim C5 fails as stated. An entry set in the year 2022 with \<^verbatim>\<open>ttl_hours = -100000000\<close> has
  \<open>now > timestamp + ttl\<close> one microsecond later, but the expiry instant lies before year 1:
  \<^verbatim>\<open>is_expired\<close> raises \<^verbatim>\<open>OverflowError\<close>, which leaves \<^verbatim>\<open>get\<close>, and the entry stays in
  the partition.
\<close>

theorem get_expired_overflow:
  "map_of (get_cache_store ''general''
            (set_entry (\<lambda>n. n) 63800000000000000 ''k'' (7::nat) (- 100000000) ''general''
               (init_cache_manager 800))) ''k''
     = Some (new_entry (\<lambda>n. n) 7 63800000000000000 (- 100000000)) \<and>
   63800000000000001 > timestamp (new_entry (\<lambda>n. n) (7::nat) 63800000000000000 (- 100000000))
       + ttl_hours (new_entry (\<lambda>n. n) (7::nat) 63800000000000000 (- 100000000)) * 3600000000 \<and>
   get 63800000000000001 63800000000000002 ''k'' ''general''
     (set_entry (\<lambda>n. n) 63800000000000000 ''k'' (7::nat) (- 100000000) ''general''
        (init_cache_manager 800))
     = Inl OverflowError"
  by (simp add: get_def is_expired_def timedelta_hours_def datetime_add_def datetime_max_def
        set_entry_def ensure_memory_capacity_def new_entry_def init_cache_manager_def
        get_cache_store_def put_cache_store_def total_bytes_def Let_def)

text \<open>
  Claim C5 as amended. Let the expiry instant \<open>timestamp + ttl\<close> of the entry of a key be a
  \<^verbatim>\<open>datetime\<close>: the time to live is within the range of \<^verbatim>\<open>timedelta\<close> and the sum is within
  years 1 to 9999. When \<open>now > timestamp + ttl\<close> at the time of a \<^verbatim>\<open>get\<close>, the \<^verbatim>\<open>get\<close>
  returns \<^verbatim>\<open>None\<close> and pops the key from its partition, whatever the position of the entry
  in the partition.
\<close>

theorem get_expired:
  assumes "map_of (get_cache_store cache_type m) key = Some e"
      and "- 999999999 \<le> ttl_hours e div 24" and "ttl_hours e div 24 \<le> 999999999"
      and "0 \<le> timestamp e + ttl_hours e * 3600000000"
      and "timestamp e + ttl_hours e * 3600000000 \<le> datetime_max"
      and "now > timestamp e + ttl_hours e * 3600000000"
  shows "get now now_touch key cache_type m
           = Inr (None, (delete key cache_type m)\<lparr>stats := (stats m)\<lparr>misses := misses (stats m) + 1\<rparr>\<rparr>) \<and>
         get_cache_store cache_type (delete key cache_type m)
           = od_pop key (get_cache_store cache_type m) \<and>
         map_of (get_cache_store cache_type (delete key cache_type m)) key = None"
proof -
  have "is_expired now e = Inr True"
    using assms(2-6) by (simp add: is_expired_in_range)
  then show ?thesis
    using assms(1) by (simp add: get_def delete_def Let_def)
qed

theorem get_expired_witness:
  "map_of (get_cache_store ''api_response''
            (set_entry (\<lambda>n. n) 63800000000000000 ''k'' (7::nat) 2 ''api_response''
               (init_cache_manager 800))) ''k''
     = Some (new_entry (\<lambda>n. n) 7 63800000000000000 2) \<and>
   - 999999999 \<le> ttl_hours (new_entry (\<lambda>n. n) (7::nat) 63800000000000000 2) div 24 \<and>
   ttl_hours (new_entry (\<lambda>n. n) (7::nat) 63800000000000000 2) div 24 \<le> 999999999 \<and>
   0 \<le> timestamp (new_entry (\<lambda>n. n) (7::nat) 63800000000000000 2)
         + ttl_hours (new_entry (\<lambda>n. n) (7::nat) 63800000000000000 2) * 3600000000 \<and>
   timestamp (new_entry (\<lambda>n. n) (7::nat) 63800000000000000 2)
         + ttl_hours (new_entry (\<lambda>n. n) (7::nat) 63800000000000000 2) * 3600000000 \<le> datetime_max \<and>
   63800007200000001 > timestamp (new_entry (\<lambda>n. n) (7::nat) 63800000000000000 2)
         + ttl_hours (new_entry (\<lambda>n. n) (7::nat) 63800000000000000 2) * 3600000000 \<and>
   (case get 63800007200000001 63800007200000002 ''k'' ''api_response''
           (set_entry (\<lambda>n. n) 63800000000000000 ''k'' (7::nat) 2 ''api_response''
              (init_cache_manager 800)) of
      Inl err \<Rightarrow> False
    | Inr (r, m') \<Rightarrow> r = None \<and> get_cache_store ''api_response'' m' = [])"
  using get_expired [of "''api_response''"
      "set_entry (\<lambda>n. n) 63800000000000000 ''k'' (7::nat) 2 ''api_response'' (init_cache_manager 800)"
      "''k''" "new_entry (\<lambda>n. n) 7 63800000000000000 2" 63800007200000001 63800007200000002]
  by (simp add: set_entry_def ensure_memory_capacity_def new_entry_def init_cache_manager_def
        get_cache_store_def put_cache_store_def total_bytes_def Let_def datetime_max_def
        delete_def od_pop_def)

subsection \<open>Eviction order\<close>

text \<open>Eviction removes a prefix of the dictionary: the items are popped from the front.\<close>

lemma evict_loop_prefix:
  "\<exists>n. fst (evict_loop budget req cur store ev) = drop n store"
proof (induction store arbitrary: cur ev)
  case Nil
  then show ?case by simp
next
  case (Cons p rest)
  obtain k e where p: "p = (k, e)" by (cases p)
  show ?case
  proof (cases "cur + req > budget")
    case True
    from Cons.IH [of "cur - int (size_bytes e)" "ev + 1"] obtain n where
      "fst (evict_loop budget req (cur - int (size_bytes e)) rest (ev + 1)) = drop n rest" ..
    with True p have "fst (evict_loop budget req cur (p # rest) ev) = drop (Suc n) (p # rest)"
      by simp
    then show ?thesis ..
  next
    case False
    with p have "fst (evict_loop budget req cur (p # rest) ev) = drop 0 (p # rest)" by simp
    then show ?thesis ..
  qed
qed

lemma od_pop_od_setitem: "od_pop k (od_setitem k v d) = od_pop k d"
  by (induction d) (auto simp: od_pop_def)

lemma map_of_od_setitem: "map_of (od_setitem k v d) k = Some v"
  by (induction d) auto

text \<open>A hit moves the key to the end of its partition, the position evicted last.\<close>

lemma get_hit_moves_to_end:
  assumes "map_of (get_cache_store cache_type m) key = Some e" and "is_expired now e = Inr False"
  shows "\<exists>m'. get now now_touch key cache_type m = Inr (Some (data e), m') \<and>
           get_cache_store cache_type m'
             = od_pop key (get_cache_store cache_type m) @ [(key, touch now_touch e)]"
  using assms
  by (simp add: get_def Let_def od_move_to_end_def map_of_od_setitem od_pop_od_setitem touch_def)

text \<open>
  While no \<^verbatim>\<open>set\<close> overwrites a key and the clock does not go back, the dictionary stays
  in the order of \<open>last_accessed\<close>, so that the first item, the one evicted next, is an
  oldest one.
\<close>

lemma od_setitem_fresh: "map_of d k = None \<Longrightarrow> od_setitem k v d = d @ [(k, v)]"
  by (induction d) (auto split: if_splits)

lemma map_of_drop_None: "map_of d k = None \<Longrightarrow> map_of (drop n d) k = None"
  by (metis append_take_drop_id map_add_None map_of_append)

lemma recency_sorted_drop: "recency_sorted d \<Longrightarrow> recency_sorted (drop n d)"
  by (simp add: recency_sorted_def sorted_wrt_drop drop_map [symmetric])

lemma recency_sorted_od_pop: "recency_sorted d \<Longrightarrow> recency_sorted (od_pop k d)"
  unfolding recency_sorted_def od_pop_def
  by (induction d) (auto simp: case_prod_beta)

lemma recency_sorted_snoc:
  assumes "recency_sorted d" and "\<forall>(k', e') \<in> set d. last_accessed e' \<le> last_accessed e"
  shows "recency_sorted (d @ [(k, e)])"
  using assms by (auto simp: recency_sorted_def sorted_append)

lemma first_is_oldest:
  "recency_sorted ((k, e) # rest) \<Longrightarrow> (k', e') \<in> set rest \<Longrightarrow> last_accessed e \<le> last_accessed e'"
  by (auto simp: recency_sorted_def)

lemma set_fresh_key_keeps_recency_order:
  assumes "map_of (get_cache_store cache_type m) key = None"
      and "recency_sorted (get_cache_store cache_type m)"
      and "\<forall>(k', e') \<in> set (get_cache_store cache_type m). last_accessed e' \<le> now"
  shows "recency_sorted (get_cache_store cache_type (set_entry estimate now key d ttl cache_type m))"
proof -
  let ?store = "get_cache_store cache_type m"
  obtain n where n: "fst (evict_loop (max_memory_bytes m div 3) (int (estimate d))
              (total_bytes ?store) ?store (evictions (stats m))) = drop n ?store"
    using evict_loop_prefix by blast
  have "set (drop n ?store) \<subseteq> set ?store" by (rule set_drop_subset)
  with assms(3) have le: "\<forall>(k', e') \<in> set (drop n ?store).
      last_accessed e' \<le> last_accessed (new_entry estimate d now ttl)"
    by (auto simp: new_entry_def)
  have "recency_sorted (drop n ?store @ [(key, new_entry estimate d now ttl)])"
    using recency_sorted_drop [OF assms(2)] le by (rule recency_sorted_snoc)
  then show ?thesis
    by (simp add: store_after_set n od_setitem_fresh map_of_drop_None assms(1))
qed

lemma get_hit_keeps_recency_order:
  assumes "map_of (get_cache_store cache_type m) key = Some e" and "is_expired now e = Inr False"
      and "recency_sorted (get_cache_store cache_type m)"
      and "\<forall>(k', e') \<in> set (get_cache_store cache_type m). last_accessed e' \<le> now_touch"
  shows "\<exists>m'. get now now_touch key cache_type m = Inr (Some (data e), m') \<and>
           recency_sorted (get_cache_store cache_type m')"
proof -
  let ?store = "get_cache_store cache_type m"
  have "set (od_pop key ?store) \<subseteq> set ?store" by (auto simp: od_pop_def)
  with assms(4) have "\<forall>(k', e') \<in> set (od_pop key ?store).
      last_accessed e' \<le> last_accessed (touch now_touch e)"
    by (auto simp: touch_def)
  with recency_sorted_od_pop [OF assms(3)]
  have "recency_sorted (od_pop key ?store @ [(key, touch now_touch e)])"
    by (rule recency_sorted_snoc)
  with get_hit_moves_to_end [OF assms(1,2), of now_touch] show ?thesis by auto
qed

text \<open>
  Claim C3, evaluated where it fails. Budget \<open>1048576 div 3 = 349525\<close> bytes. Key \<open>A\<close> is set
  at time 1, key \<open>B\<close> at time 2, then key \<open>A\<close> is set again at time 3: the new entry of
  \<open>A\<close> has \<open>last_accessed = 3\<close> but keeps the first position of the dictionary. The next
  \<^verbatim>\<open>set\<close> needs one eviction and evicts \<open>A\<close>, although \<open>B\<close> has the oldest
  \<open>last_accessed\<close>.
\<close>

theorem overwrite_breaks_lru:
  "map (\<lambda>(k, e). (k, last_accessed e))
     (get_cache_store ''general''
        (set_entry (\<lambda>n. n) 3 ''A'' (100000::nat) 6 ''general''
          (set_entry (\<lambda>n. n) 2 ''B'' 100000 6 ''general''
            (set_entry (\<lambda>n. n) 1 ''A'' 100000 6 ''general'' (init_cache_manager 1)))))
     = [(''A'', 3), (''B'', 2)] \<and>
   map (\<lambda>(k, e). (k, last_accessed e))
     (get_cache_store ''general''
        (set_entry (\<lambda>n. n) 4 ''C'' 200000 6 ''general''
          (set_entry (\<lambda>n. n) 3 ''A'' (100000::nat) 6 ''general''
            (set_entry (\<lambda>n. n) 2 ''B'' 100000 6 ''general''
              (set_entry (\<lambda>n. n) 1 ''A'' 100000 6 ''general'' (init_cache_manager 1))))))
     = [(''B'', 2), (''C'', 4)]"
  by (simp add: set_entry_def ensure_memory_capacity_def new_entry_def init_cache_manager_def
        get_cache_store_def put_cache_store_def total_bytes_def Let_def)

section \<open>Properties of the content deduplication\<close>


lemma is_duplicate_seen:
  "generate_content_hash md5 t c u |\<in>| processed_content_hashes m \<Longrightarrow>
     is_duplicate_content md5 lo t c u m
       = (True, m\<lparr>stats := (stats m)\<lparr>duplicate_blocks := duplicate_blocks (stats m) + 1\<rparr>\<rparr>)"
  by (simp add: is_duplicate_content_def)

lemma is_duplicate_fresh:
  "generate_content_hash md5 t c u |\<notin>| processed_content_hashes m \<Longrightarrow>
   \<not> prune_triggered md5 (t, c, u) m \<Longrightarrow>
     is_duplicate_content md5 lo t c u m
       = (False, m\<lparr>processed_content_hashes :=
                     finsert (generate_content_hash md5 t c u) (processed_content_hashes m)\<rparr>)"
  by (simp add: is_duplicate_content_def prune_triggered_def Let_def)

lemma is_duplicate_keeps:
  assumes "h |\<in>| processed_content_hashes m" and "\<not> prune_triggered md5 (t, c, u) m"
  shows "h |\<in>| processed_content_hashes (snd (is_duplicate_content md5 lo t c u m))"
proof (cases "generate_content_hash md5 t c u |\<in>| processed_content_hashes m")
  case True
  then show ?thesis using assms by (simp add: is_duplicate_seen)
next
  case False
  then show ?thesis using assms by (simp add: is_duplicate_fresh)
qed

lemma duplicate_checks_later:
  assumes "generate_content_hash md5 t c u |\<in>| processed_content_hashes m"
      and "no_pruning md5 lo calls m"
      and "j < length calls" and "calls ! j = (t, c, u)"
  shows "duplicate_checks md5 lo calls m ! j = True"
  using assms
proof (induction calls arbitrary: m j)
  case Nil
  then show ?case by simp
next
  case (Cons x calls)
  obtain t0 c0 u0 where x: "x = (t0, c0, u0)" by (cases x)
  let ?m1 = "snd (is_duplicate_content md5 lo t0 c0 u0 m)"
  show ?case
  proof (cases j)
    case 0
    with Cons.prems x show ?thesis
      by (simp add: is_duplicate_seen)
  next
    case (Suc i)
    from Cons.prems x have np: "\<not> prune_triggered md5 (t0, c0, u0) m" "no_pruning md5 lo calls ?m1"
      by simp_all
    have "generate_content_hash md5 t c u |\<in>| processed_content_hashes ?m1"
      using Cons.prems(1) np(1) by (rule is_duplicate_keeps)
    moreover from Cons.prems Suc have "i < length calls" "calls ! i = (t, c, u)" by simp_all
    ultimately have "duplicate_checks md5 lo calls ?m1 ! i = True"
      using np(2) by (intro Cons.IH)
    then show ?thesis using Suc x by (simp add: split_beta)
  qed
qed

text \<open>
  Claim C4 fails as stated. The duplicate check hashes the concatenation of the truncated
  title, the truncated body and the URL, so the inputs \<open>(X, Y, Z)\<close> and \<open>(XY, empty, Z)\<close>
  are hashed from the same string: after a check of the first, the first check of the second
  returns true, with no pruning in between, here even with the identity in the place of MD5.
\<close>

theorem first_call_true_after_other_input:
  "content_string ''X'' ''Y'' ''Z'' = content_string ''XY'' [] ''Z'' \<and>
   no_pruning id sorted_list_of_fset [(''X'', ''Y'', ''Z''), (''XY'', [], ''Z'')]
     (init_cache_manager 800 :: nat CacheManager) \<and>
   duplicate_checks id sorted_list_of_fset [(''X'', ''Y'', ''Z''), (''XY'', [], ''Z'')]
     (init_cache_manager 800 :: nat CacheManager) = [False, True]"
  by (simp add: init_cache_manager_def is_duplicate_content_def prune_triggered_def
        generate_content_hash_def content_string_def Let_def fcard_finsert_if fcard_fempty)

text \<open>
  Claim C4 as amended. Take an input \<open>(title, body, url)\<close> and any sequence of further
  duplicate checks after it, none of the calls reaching the pruning branch. The first call
  returns false exactly when the content hash of the input is not yet in the seen-set, and
  then it inserts the content hash into the seen-set; every later call of the sequence with
  the identical input returns true.
\<close>

theorem dedup_first_false_then_true:
  assumes "no_pruning md5 lo ((t, c, u) # calls) m"
  shows "(fst (is_duplicate_content md5 lo t c u m) = False
            \<longleftrightarrow> generate_content_hash md5 t c u |\<notin>| processed_content_hashes m) \<and>
         (generate_content_hash md5 t c u |\<notin>| processed_content_hashes m \<longrightarrow>
            processed_content_hashes (snd (is_duplicate_content md5 lo t c u m))
              = finsert (generate_content_hash md5 t c u) (processed_content_hashes m)) \<and>
         (\<forall>j < length calls. calls ! j = (t, c, u) \<longrightarrow>
            duplicate_checks md5 lo ((t, c, u) # calls) m ! Suc j = True)"
proof -
  let ?h = "generate_content_hash md5 t c u"
  let ?m1 = "snd (is_duplicate_content md5 lo t c u m)"
  from assms have np: "\<not> prune_triggered md5 (t, c, u) m" "no_pruning md5 lo calls ?m1"
    by simp_all
  have first: "fst (is_duplicate_content md5 lo t c u m) = False \<longleftrightarrow> ?h |\<notin>| processed_content_hashes m"
    using np(1) by (cases "?h |\<in>| processed_content_hashes m")
      (simp_all add: is_duplicate_seen is_duplicate_fresh)
  have inserted: "?h |\<notin>| processed_content_hashes m \<longrightarrow>
      processed_content_hashes ?m1 = finsert ?h (processed_content_hashes m)"
    using np(1) by (simp add: is_duplicate_fresh)
  have "?h |\<in>| processed_content_hashes ?m1"
    using np(1) by (cases "?h |\<in>| processed_content_hashes m")
      (simp_all add: is_duplicate_seen is_duplicate_fresh)
  then have "\<forall>j < length calls. calls ! j = (t, c, u) \<longrightarrow> duplicate_checks md5 lo calls ?m1 ! j = True"
    using np(2) duplicate_checks_later by blast
  then have later: "\<forall>j < length calls. calls ! j = (t, c, u) \<longrightarrow>
      duplicate_checks md5 lo ((t, c, u) # calls) m ! Suc j = True"
    by (simp add: split_beta)
  from first inserted later show ?thesis by blast
qed

theorem dedup_first_false_then_true_witness:
  "no_pruning (\<lambda>s. s) sorted_list_of_fset [(''X'', ''Y'', ''Z''), (''X'', ''Y'', ''Z'')]
     (init_cache_manager 800 :: nat CacheManager) \<and>
   generate_content_hash (\<lambda>s. s) ''X'' ''Y'' ''Z''
     |\<notin>| processed_content_hashes (init_cache_manager 800 :: nat CacheManager) \<and>
   processed_content_hashes
     (snd (is_duplicate_content (\<lambda>s. s) sorted_list_of_fset ''X'' ''Y'' ''Z''
             (init_cache_manager 800 :: nat CacheManager))) = {|''XYZ''|} \<and>
   duplicate_checks (\<lambda>s. s) sorted_list_of_fset [(''X'', ''Y'', ''Z''), (''X'', ''Y'', ''Z'')]
     (init_cache_manager 800 :: nat CacheManager) = [False, True]"
  using dedup_first_false_then_true [of "\<lambda>s. s" sorted_list_of_fset "''X''" "''Y''" "''Z''"
      "[(''X'', ''Y'', ''Z'')]" "init_cache_manager 800 :: nat CacheManager"]
  by (simp add: init_cache_manager_def is_duplicate_content_def prune_triggered_def
        generate_content_hash_def content_string_def Let_def fcard_finsert_if fcard_fempty)

lemma prefix_less: "(h::string) < h @ x # xs"
  by (induction h) simp_all

lemma insort_least: "\<forall>y \<in> set xs. h \<le> y \<Longrightarrow> insort h xs = h # xs"
  by (cases xs) simp_all

lemma sorted_list_of_fset_least:
  assumes "\<forall>x. x |\<in>| S \<longrightarrow> h < x"
  shows "sorted_list_of_fset (finsert h S) = h # sorted_list_of_fset S"
proof -
  from assms have notin: "h \<notin> fset S" by auto
  have "sorted_list_of_set (insert h (fset S)) = insort h (sorted_list_of_set (fset S))"
    using notin by (simp add: sorted_list_of_set_insert)
  also have "\<dots> = h # sorted_list_of_set (fset S)"
    using assms by (intro insort_least) (auto simp: less_imp_le)
  finally show ?thesis by (simp add: sorted_list_of_fset.rep_eq)
qed

lemma length_sorted_list_of_fset: "length (sorted_list_of_fset S) = fcard S"
  by (simp add: sorted_list_of_fset.rep_eq fcard.rep_eq)

lemma distinct_sorted_list_of_fset: "distinct (sorted_list_of_fset S)"
  by (simp add: sorted_list_of_fset.rep_eq)

lemma fcard_fset_of_list_distinct: "distinct xs \<Longrightarrow> fcard (fset_of_list xs) = length xs"
  by (simp add: fcard.rep_eq fset_of_list.rep_eq distinct_card)

lemma fcard_older: "fcard (older_hashes h) = 10000"
proof -
  have "inj_on (\<lambda>n. h @ replicate (Suc n) CHR ''a'') {0..<10000}"
    by (rule inj_onI) (auto dest: arg_cong [where f = length])
  then have "card ((\<lambda>n. h @ replicate (Suc n) CHR ''a'') ` {0..<10000}) = 10000"
    by (simp add: card_image)
  then show ?thesis
    by (simp add: older_hashes_def fcard.rep_eq fset_of_list.rep_eq)
qed

lemma older_greater: "x |\<in>| older_hashes h \<Longrightarrow> h < x"
  by (auto simp: older_hashes_def prefix_less)

text \<open>
  Whatever the iteration order of the set, a pruning retains exactly 7500 of the hashes
  seen so far.
\<close>

lemma prune_retains_7500:
  assumes "prune_triggered md5 (t, c, u) m"
      and "distinct (lo (finsert (generate_content_hash md5 t c u) (processed_content_hashes m)))"
      and "fset_of_list (lo (finsert (generate_content_hash md5 t c u) (processed_content_hashes m)))
             = finsert (generate_content_hash md5 t c u) (processed_content_hashes m)"
  shows "fcard (processed_content_hashes (snd (is_duplicate_content md5 lo t c u m))) = 7500 \<and>
         processed_content_hashes (snd (is_duplicate_content md5 lo t c u m))
           |\<subseteq>| finsert (generate_content_hash md5 t c u) (processed_content_hashes m)"
proof -
  let ?S = "finsert (generate_content_hash md5 t c u) (processed_content_hashes m)"
  let ?L = "lo ?S"
  from assms(1) have fresh: "generate_content_hash md5 t c u |\<notin>| processed_content_hashes m"
    and big: "fcard ?S > 10000" by (simp_all add: prune_triggered_def)
  have "fcard (fset_of_list ?L) = length ?L"
    using assms(2) by (rule fcard_fset_of_list_distinct)
  with assms(3) big have len: "length ?L > 10000" by simp
  have after: "processed_content_hashes (snd (is_duplicate_content md5 lo t c u m))
                 = fset_of_list (drop (length ?L - 7500) ?L)"
    using fresh big by (simp add: is_duplicate_content_def Let_def)
  have "fcard (fset_of_list (drop (length ?L - 7500) ?L)) = 7500"
    using assms(2) len by (simp add: fcard_fset_of_list_distinct)
  moreover have "fset_of_list (drop (length ?L - 7500) ?L) |\<subseteq>| fset_of_list ?L"
    using set_drop_subset [of "length ?L - 7500" ?L]
    by (auto simp: fset_of_list.rep_eq less_eq_fset.rep_eq)
  ultimately show ?thesis using after assms(3) by simp
qed

text \<open>
  Claim C6, evaluated where it fails. The seen-set holds 10000 hashes and the hash \<open>h\<close> of
  a new input is inserted, which makes 10001 and starts the pruning. Let the iteration
  of the set list its elements in sorted order, with \<open>h\<close> the least of them. Then exactly
  7500 hashes are retained, but \<open>h\<close>, the most recently inserted one, is among the 2501
  dropped: the same input checked again is not recognised as a duplicate.
\<close>

theorem prune_forgets_newest:
  "let h = generate_content_hash md5 t c u;
       m = (init_cache_manager 800 :: 'd CacheManager)\<lparr>processed_content_hashes := older_hashes h\<rparr>;
       (r1, m1) = is_duplicate_content md5 sorted_list_of_fset t c u m;
       (r2, m2) = is_duplicate_content md5 sorted_list_of_fset t c u m1
   in fcard (processed_content_hashes m) = 10000 \<and> h |\<notin>| processed_content_hashes m \<and>
      r1 = False \<and> fcard (processed_content_hashes m1) = 7500 \<and>
      h |\<notin>| processed_content_hashes m1 \<and> r2 = False"
proof -
  define h where "h = generate_content_hash md5 t c u"
  define m where "m = (init_cache_manager 800 :: 'd CacheManager)\<lparr>processed_content_hashes := older_hashes h\<rparr>"
  let ?L = "sorted_list_of_fset (older_hashes h)"
  have seen: "processed_content_hashes m = older_hashes h" by (simp add: m_def)
  have notin: "h |\<notin>| older_hashes h" using older_greater [of h h] by auto
  have card: "fcard (finsert h (older_hashes h)) = 10001"
    using notin by (simp add: fcard_finsert_disjoint fcard_older)
  have list: "sorted_list_of_fset (finsert h (older_hashes h)) = h # ?L"
    by (rule sorted_list_of_fset_least) (simp add: older_greater)
  have len: "length ?L = 10000" by (simp add: length_sorted_list_of_fset fcard_older)
  have dropped: "drop (length (h # ?L) - 7500) (h # ?L) = drop 2500 ?L"
    by (simp add: len)
  have first: "is_duplicate_content md5 sorted_list_of_fset t c u m
                 = (False, m\<lparr>processed_content_hashes := fset_of_list (drop 2500 ?L)\<rparr>)"
    using notin card
    by (simp add: is_duplicate_content_def Let_def seen h_def [symmetric] list len)
  have sub: "set (drop 2500 ?L) \<subseteq> fset (older_hashes h)"
    using set_drop_subset [of 2500 ?L] by simp
  have gone: "h |\<notin>| fset_of_list (drop 2500 ?L)"
    using sub notin by (auto simp: fset_of_list.rep_eq)
  have kept: "fcard (fset_of_list (drop 2500 ?L)) = 7500"
    by (simp add: fcard_fset_of_list_distinct distinct_drop distinct_sorted_list_of_fset len)
  have second: "fst (is_duplicate_content md5 sorted_list_of_fset t c u
                       (m\<lparr>processed_content_hashes := fset_of_list (drop 2500 ?L)\<rparr>)) = False"
    using gone kept
    by (simp add: is_duplicate_content_def Let_def h_def [symmetric] fcard_finsert_disjoint)
  show ?thesis
    using first second gone kept notin
    by (auto simp: Let_def h_def [symmetric] m_def [symmetric] seen fcard_older split: prod.splits)
qed

section \<open>Properties of the candidate records\<close>


text \<open>
  Claim C7 fails for the content hash of a candidate record, the one the collector's
  inclusion check uses: two records that differ only in their body have the same hash,
  here even with the identity in the place of MD5.
\<close>

theorem content_hash_same_for_different_bodies:
  "content (\<lparr>title = ''App crashes'', content = ''It fails on start'', source = ''reddit-main'',
      source_url = ''http://r/1'', sentiment_score = 0, trend_score = 1 / 2, keywords_p = [],
      category = ''general'', confidence = 1 / 2, timestamp_p = 0\<rparr>)
     \<noteq> content (\<lparr>title = ''App crashes'', content = ''A different body'', source = ''reddit-main'',
      source_url = ''http://r/1'', sentiment_score = 0, trend_score = 1 / 2, keywords_p = [],
      category = ''general'', confidence = 1 / 2, timestamp_p = 0\<rparr>) \<and>
   content_hash id (\<lparr>title = ''App crashes'', content = ''It fails on start'', source = ''reddit-main'',
      source_url = ''http://r/1'', sentiment_score = 0, trend_score = 1 / 2, keywords_p = [],
      category = ''general'', confidence = 1 / 2, timestamp_p = 0\<rparr>)
     = content_hash id (\<lparr>title = ''App crashes'', content = ''A different body'', source = ''reddit-main'',
      source_url = ''http://r/1'', sentiment_score = 0, trend_score = 1 / 2, keywords_p = [],
      category = ''general'', confidence = 1 / 2, timestamp_p = 0\<rparr>)"
  by (simp add: content_hash_def content_str_def)

text \<open>
  Claim C7 as amended. The cache manager's content hash is the hash of the first 100
  characters of the title, the first 200 characters of the body and the URL, concatenated;
  two inputs that differ within the first 200 characters of the body, and in nothing else,
  are hashed from different strings. The content hash of a candidate record is the hash of
  the first 100 characters of the title, the source name and the URL, concatenated, and
  does not depend on the body.
\<close>

theorem content_hash_inputs:
  "generate_content_hash md5 t c u = md5 (take 100 t @ take 200 c @ u) \<and>
   (take 200 c \<noteq> take 200 c' \<longrightarrow> content_string t c u \<noteq> content_string t c' u) \<and>
   content_hash md5 p = md5 (take 100 (title p) @ source p @ source_url p) \<and>
   content_hash md5 (p\<lparr>content := c\<rparr>) = content_hash md5 p"
  by (simp add: generate_content_hash_def content_string_def content_hash_def content_str_def)

theorem content_hash_inputs_witness:
  "take 200 ''first body'' \<noteq> take 200 ''second body'' \<and>
   content_string ''T'' ''first body'' ''u'' \<noteq> content_string ''T'' ''second body'' ''u'' \<and>
   generate_content_hash id ''T'' ''first body'' ''u'' = ''Tfirst bodyu''"
  using content_hash_inputs [of id "''T''" "''first body''" "''u''" "''second body''"]
  by (simp add: content_string_def)

lemma rnd_nonneg: "mono rnd \<Longrightarrow> rnd 0 = 0 \<Longrightarrow> 0 \<le> x \<Longrightarrow> 0 \<le> rnd (x::real)"
  by (metis monoD)

lemma rnd_scaled:
  assumes "mono rnd" "rnd 0 = 0" "0 \<le> k" "a \<le> b"
  shows "rnd (a * rnd k) \<le> rnd (b * rnd (k::real))"
proof -
  have "0 \<le> rnd k" using assms by (simp add: rnd_nonneg)
  then have "a * rnd k \<le> b * rnd k" using assms(4) by (rule mult_right_mono [rotated])
  then show ?thesis using assms(1) by (rule monoD [rotated])
qed

lemma rnd_ratio:
  assumes "mono rnd" "(m::nat) \<le> n" "0 < d"
  shows "min (rnd (real m / d)) 1 \<le> min (rnd (real n / d)) (1::real)"
proof -
  have "real m / d \<le> real n / d" using assms by (simp add: divide_right_mono)
  then have "rnd (real m / d) \<le> rnd (real n / d)" using assms(1) by (rule monoD [rotated])
  then show ?thesis by (simp add: min_le_iff_disj)
qed

lemma rnd_sum:
  assumes "mono rnd" "a \<le> a'" "b \<le> b'"
  shows "rnd (a + b) \<le> rnd (a' + (b'::real))"
  using assms by (intro monoD [of rnd]) simp_all

text \<open>
  Claim C8. For every rounding that is monotone and exact at \<open>0\<close> (exact real arithmetic
  is one), a record whose title length, body length, keyword count and confidence are
  each at least those of another record has at least its quality score. In particular
  the score does not decrease when one signal increases and the others stay fixed.
\<close>

theorem quality_score_monotone:
  assumes "mono rnd" and "rnd 0 = 0"
      and "length (title p) \<le> length (title p')"
      and "length (content p) \<le> length (content p')"
      and "length (keywords_p p) \<le> length (keywords_p p')"
      and "confidence p \<le> confidence p'"
  shows "quality_score rnd p \<le> quality_score rnd p'"
  unfolding quality_score_def Let_def
  using assms
  by (intro rnd_sum rnd_scaled rnd_ratio) simp_all

lemma mono_exact: "mono (\<lambda>x::real. x)"
  by (simp add: mono_def)

theorem quality_score_monotone_witness:
  "mono (\<lambda>x::real. x) \<and>
   confidence sample_point \<le> confidence (sample_point\<lparr>confidence := 8 / 10\<rparr>) \<and>
   quality_score (\<lambda>x. x) sample_point \<le> quality_score (\<lambda>x. x) (sample_point\<lparr>confidence := 8 / 10\<rparr>) \<and>
   quality_score (\<lambda>x. x) sample_point = 89 / 100 \<and>
   quality_score (\<lambda>x. x) (sample_point\<lparr>confidence := 8 / 10\<rparr>) = 94 / 100"
  using quality_score_monotone [of "\<lambda>x. x" sample_point "sample_point\<lparr>confidence := 8 / 10\<rparr>"]
  by (simp add: mono_exact quality_score_def sample_point_def)

section \<open>Properties of the collector\<close>

text \<open>
  Claim C10. Let a record whose content hash is not in the seen-hash set be rejected by the
  quality threshold or by the pain-content heuristic. Then \<open>should_include\<close> returns false
  and changes nothing but the counter \<open>quality_filtered\<close>, which it increments: the seen-hash
  set is the same. For any record, its hash is in the seen-hash set after the call only if it
  was there before or the record was included. After the rejection the same record is
  included exactly when it passes the quality threshold and the heuristic, under whatever
  configuration and heuristic it is checked then.
\<close>

theorem rejection_keeps_seen_hashes:
  assumes "content_hash md5 p |\<notin>| seen_hashes c"
      and "quality_score rnd p < min_quality_score (config c)
           \<or> \<not> is_pain (title p @ '' '' @ content p)"
  shows "should_include rnd md5 is_pain p c
           = (False, c\<lparr>collector_stats := (collector_stats c)
                        \<lparr>quality_filtered := quality_filtered (collector_stats c) + 1\<rparr>\<rparr>) \<and>
         seen_hashes (snd (should_include rnd md5 is_pain p c)) = seen_hashes c \<and>
         (\<forall>q. content_hash md5 q |\<in>| seen_hashes (snd (should_include rnd md5 is_pain q c))
                \<longrightarrow> content_hash md5 q |\<in>| seen_hashes c \<or> fst (should_include rnd md5 is_pain q c)) \<and>
         (\<forall>cfg' is_pain'.
            fst (should_include rnd md5 is_pain' p
                   ((snd (should_include rnd md5 is_pain p c))\<lparr>config := cfg'\<rparr>))
              = (\<not> quality_score rnd p < min_quality_score cfg'
                   \<and> is_pain' (title p @ '' '' @ content p)))"
  using assms by (auto simp: should_include_def Let_def)

theorem rejection_keeps_seen_hashes_witness:
  "content_hash id (sample_point\<lparr>title := ''t'', content := [], keywords_p := []\<rparr>)
     |\<notin>| seen_hashes (init_collector default_config) \<and>
   quality_score (\<lambda>x. x) (sample_point\<lparr>title := ''t'', content := [], keywords_p := []\<rparr>)
     < min_quality_score (config (init_collector default_config)) \<and>
   should_include (\<lambda>x. x) id (\<lambda>text. True)
       (sample_point\<lparr>title := ''t'', content := [], keywords_p := []\<rparr>) (init_collector default_config)
     = (False, (init_collector default_config)
                 \<lparr>collector_stats := (collector_stats (init_collector default_config))
                    \<lparr>quality_filtered := 1\<rparr>\<rparr>) \<and>
   fst (should_include (\<lambda>x. x) id (\<lambda>text. True)
          (sample_point\<lparr>title := ''t'', content := [], keywords_p := []\<rparr>)
          ((snd (should_include (\<lambda>x. x) id (\<lambda>text. True)
                   (sample_point\<lparr>title := ''t'', content := [], keywords_p := []\<rparr>)
                   (init_collector default_config)))
             \<lparr>config := default_config\<lparr>min_quality_score := 0\<rparr>\<rparr>))"
  using rejection_keeps_seen_hashes [of id "sample_point\<lparr>title := ''t'', content := [], keywords_p := []\<rparr>"
      "init_collector default_config" "\<lambda>x. x" "\<lambda>text. True"]
  by (simp add: init_collector_def default_config_def quality_score_def sample_point_def
        should_include_def content_hash_def content_str_def Let_def)


lemma fetch_count_add_fetch [simp]: "fetch_count (add_event (Fetch q l) c) = fetch_count c + 1"
  by (simp add: fetch_count_def add_event_def)

lemma fetch_count_add_sleep [simp]: "fetch_count (add_event (Sleep d) c) = fetch_count c"
  by (simp add: fetch_count_def add_event_def)

lemma fetch_count_add_error [simp]: "fetch_count (add_error msg c) = fetch_count c"
  by (simp add: fetch_count_def add_error_def)

lemma config_add [simp]:
  "config (add_event ev c) = config c" "config (add_error msg c) = config c"
  by (simp_all add: add_event_def add_error_def)

lemma errors_add [simp]:
  "errors (collector_stats (add_event ev c)) = errors (collector_stats c)"
  "errors (collector_stats (add_error msg c)) = errors (collector_stats c) @ [msg]"
  by (simp_all add: add_event_def add_error_def)

lemma seen_add [simp]:
  "seen_hashes (add_event ev c) = seen_hashes c" "seen_hashes (add_error msg c) = seen_hashes c"
  by (simp_all add: add_event_def add_error_def)






section \<open>Properties of the orchestrator\<close>

text \<open>The efficiency score of a result is the formula of the specification.\<close>

lemma efficiency_score_formula:
  "efficiency_score rnd r
     = efficiency_formula rnd (success_rate rnd r) (cache_hits_cr r) (total_processed_cr r)"
  by (simp add: efficiency_score_def efficiency_formula_def Let_def min.commute)

text \<open>
  The aggregation of lines 126 to 160, when the cleanup raises nothing: the global counts
  are the sums of the counts of the per-source results.
\<close>

lemma body_sums:
  assumes "fst (cleanup_expired now
             (snd (snd (snd (sources_loop md5 lo ok t0 runs ([], [], [], cache_manager svc)))))) = None"
  shows "collected_count (fst (collect_all_sources_body rnd md5 lo ok str_of runs t0 t1 now svc))
     = sum_list (map collected_count
         (fst (sources_loop md5 lo ok t0 runs ([], [], [], cache_manager svc)))) \<and>
   total_processed_cr (fst (collect_all_sources_body rnd md5 lo ok str_of runs t0 t1 now svc))
     = sum_list (map total_processed_cr
         (fst (sources_loop md5 lo ok t0 runs ([], [], [], cache_manager svc))))"
  using assms by (simp add: collect_all_sources_body_def Let_def split_beta)

text \<open>
  Claim C9, evaluated where it fails. \<^verbatim>\<open>data_collector.py\<close> never imports \<^verbatim>\<open>time\<close>, so the
  first statement of \<^verbatim>\<open>collect_all_sources\<close> raises \<^verbatim>\<open>NameError\<close> on every call, and no
  aggregate result is returned.
\<close>

theorem collect_all_sources_raises:
  "collect_all_sources rnd md5 lo ok str_of runs t0 t1 now svc = Inl (NameError ''time'')"
  by (simp add: collect_all_sources_def global_name_def module_names_def)

end
